theory Spec2Isabelle
  imports Main
begin

section \<open>The vote indexer repository\<close>

text \<open>
  A shallow embedding of \<^verbatim>\<open>internal/packages/consensus/voteindexer/repository/repository.go\<close>.
  The three methods of \<^verbatim>\<open>VoteIndexerRepository\<close> send SQL statements to a relational
  store. The store is explicit state here: every method takes the storage and returns the
  storage it leaves behind, next to the values the Go method returns.
\<close>

subsection \<open>Errors\<close>

text \<open>
  A Go \<^verbatim>\<open>error\<close>. \<open>Err\<close> is an error raised by a collaborator (the store, the
  retention parser); \<open>Wrapf e msg\<close> is \<^verbatim>\<open>errors.Wrapf(e, msg)\<close>. A method that returns
  \<^verbatim>\<open>error\<close> returns \<open>error option\<close>, with \<open>None\<close> for \<^verbatim>\<open>nil\<close>.
\<close>

datatype error = Err string | Wrapf error string

subsection \<open>Rows\<close>

text \<open>
  Go \<^verbatim>\<open>int64\<close> values and SQL integer columns are \<open>int\<close>. The repository only stores
  and compares them; the one place where it computes with one (\<open>MAX(height) - 100\<close>)
  carries the range check of SQL's 64-bit integers, see \<open>sql_int8_minus\<close> below.
\<close>

text \<open>
  \<^verbatim>\<open>idxmodel.IndexPointer\<close>: the columns the update statement names
  (\<^verbatim>\<open>chain_info_id\<close>, \<^verbatim>\<open>index_name\<close>, \<^verbatim>\<open>pointer\<close>).
\<close>

record IndexPointer =
  chain_info_id :: int
  index_name :: string
  pointer :: int

text \<open>
  \<^verbatim>\<open>model.ValidatorVote\<close>: the columns the statements of this file name
  (\<^verbatim>\<open>height\<close>, \<^verbatim>\<open>validator_hex_address_id\<close>, \<^verbatim>\<open>status\<close>, \<^verbatim>\<open>timestamp\<close>). The
  insert excludes the column \<^verbatim>\<open>id\<close> from its payload (\<^verbatim>\<open>ExcludeColumn("id")\<close>): the
  store fills it, and no statement of this file reads it, so rows are kept without it.
  A timestamp is a number of time units since some epoch.
\<close>

record ValidatorVote =
  height :: int
  validator_hex_address_id :: int
  status :: int
  timestamp :: int

text \<open>The table \<^verbatim>\<open>meta.validator_info\<close>, as far as the join reads it.\<close>

record ValidatorInfo =
  vi_id :: int
  vi_moniker :: string

text \<open>
  \<^verbatim>\<open>model.RecentValidatorVote\<close>: one field per column of the aggregation's select list
  (the spelling \<^verbatim>\<open>commited\<close> is the query's).
\<close>

record RecentValidatorVote =
  moniker :: string
  max_height :: int
  min_height :: int
  missed :: int
  commited :: int
  proposed :: int

subsection \<open>The store\<close>

text \<open>
  The relational store, as far as the repository touches it:
  \<^item> \<open>index_pointer\<close>: the rows of the index pointer table;
  \<^item> \<open>validator_info\<close>: the rows of \<^verbatim>\<open>meta.validator_info\<close>;
  \<^item> \<open>tables\<close>: the physical vote partitions by name, \<open>None\<close> for a relation that
    does not exist;
  \<^item> \<open>partition_of\<close>: the partition the store routes a row of the vote model's table
    to. The insert names the model's table, the reads and the delete name a partition;
    partitions are provisioned outside of the repository.
\<close>

record storage =
  index_pointer :: "IndexPointer list"
  validator_info :: "ValidatorInfo list"
  tables :: "string \<Rightarrow> ValidatorVote list option"
  partition_of :: "ValidatorVote \<Rightarrow> string"

text \<open>
  The requests the repository sends. Each of them can fail inside the store or on the way
  (the deadline of \<^verbatim>\<open>sqlTimeout\<close> passes, the connection breaks, a constraint is
  violated). Which ones fail during a call, and with what error, is a parameter of the
  call: \<open>F r = Some e\<close> when request \<open>r\<close> fails with \<open>e\<close>.
\<close>

datatype request = BeginTx | InsertVotes | UpdatePointer | CommitTx | SelectRecent | DeleteOld

type_synonym faults = "request \<Rightarrow> error option"

definition no_faults :: faults where
  "no_faults = (\<lambda>r. None)"

subsection \<open>Statements\<close>

text \<open>
  \<^verbatim>\<open>UPDATE index_pointer SET pointer = ? WHERE chain_info_id = ? AND index_name = ?\<close>:
  every row that matches both conditions gets the new pointer, the others stay. A
  statement that fails changes nothing.
\<close>

definition pointer_matches :: "int \<Rightarrow> string \<Rightarrow> IndexPointer \<Rightarrow> bool" where
  "pointer_matches chainInfoID indexName p \<longleftrightarrow>
     chain_info_id p = chainInfoID \<and> index_name p = indexName"

definition exec_update_pointer ::
  "faults \<Rightarrow> storage \<Rightarrow> int \<Rightarrow> int \<Rightarrow> string \<Rightarrow> error + storage" where
  "exec_update_pointer F db indexPointerHeight chainInfoID indexName =
     (case F UpdatePointer of
        Some e \<Rightarrow> Inl e
      | None \<Rightarrow> Inr (db\<lparr>index_pointer :=
          map (\<lambda>p. if pointer_matches chainInfoID indexName p
                    then p\<lparr>pointer := indexPointerHeight\<rparr> else p)
              (index_pointer db)\<rparr>))"

text \<open>
  The bulk \<^verbatim>\<open>INSERT\<close> of a slice of votes: one statement, so either every row is stored,
  each at the end of the partition the store routes it to, or none is. It fails when a row
  has no partition to go to.
\<close>

definition exec_insert_votes ::
  "faults \<Rightarrow> storage \<Rightarrow> ValidatorVote list \<Rightarrow> error + storage" where
  "exec_insert_votes F db votes =
     (case F InsertVotes of
        Some e \<Rightarrow> Inl e
      | None \<Rightarrow>
          if \<exists>v \<in> set votes. tables db (partition_of db v) = None
          then Inl (Err ''no partition of relation found for row'')
          else Inr (db\<lparr>tables := (\<lambda>t. case tables db t of
                  None \<Rightarrow> None
                | Some rows \<Rightarrow> Some (rows @ filter (\<lambda>v. partition_of db v = t) votes))\<rparr>))"

text \<open>
  \<^verbatim>\<open>bun.DB.RunInTx\<close>: begin a transaction, run the function on it, commit when it returns
  \<^verbatim>\<open>nil\<close> and roll back when it returns an error or when the commit fails. The function
  works on the transaction's view of the store; a rollback leaves the store as it was when
  the transaction began.
\<close>

definition RunInTx ::
  "faults \<Rightarrow> storage \<Rightarrow> (storage \<Rightarrow> error + storage) \<Rightarrow> error option \<times> storage" where
  "RunInTx F db fn =
     (case F BeginTx of
        Some e \<Rightarrow> (Some e, db)
      | None \<Rightarrow>
          (case fn db of
             Inl e \<Rightarrow> (Some e, db)
           | Inr tx \<Rightarrow>
               (case F CommitTx of
                  Some e \<Rightarrow> (Some e, db)
                | None \<Rightarrow> (None, tx))))"

subsection \<open>InsertValidatorVoteList\<close>

definition IndexName :: string where
  "IndexName = ''voteindexer''"

definition InsertValidatorVoteList ::
  "faults \<Rightarrow> storage \<Rightarrow> int \<Rightarrow> int \<Rightarrow> ValidatorVote list \<Rightarrow> error option \<times> storage" where
  "InsertValidatorVoteList F db chainInfoID indexPointerHeight ValidatorVoteList =
     (if length ValidatorVoteList = 0 then
        (case exec_update_pointer F db indexPointerHeight chainInfoID IndexName of
           Inl err \<Rightarrow> (Some (Wrapf err ''failed to update new index pointer''), db)
         | Inr db' \<Rightarrow> (None, db'))
      else
        (case RunInTx F db (\<lambda>tx.
                 case exec_insert_votes F tx ValidatorVoteList of
                   Inl err \<Rightarrow> Inl (Wrapf err ''failed to insert validator_miss list'')
                 | Inr tx' \<Rightarrow>
                     (case exec_update_pointer F tx' indexPointerHeight chainInfoID IndexName of
                        Inl err \<Rightarrow> Inl (Wrapf err ''failed to update new index pointer'')
                      | Inr tx'' \<Rightarrow> Inr tx'')) of
           (Some err, db') \<Rightarrow>
             (Some (Wrapf err ''failed to exec validator miss in a transaction''), db')
         | (None, db') \<Rightarrow> (None, db')))"

subsection \<open>The helpers of package dbhelper\<close>

text \<open>
  \<^verbatim>\<open>dbhelper.MakePartitionTableName\<close> and \<^verbatim>\<open>dbhelper.ParseRetentionPeriod\<close> are called by
  the repository and defined elsewhere. They are parameters of the two methods that call
  them: a pure function from the index name and the chain id to a table name, and a
  parser that returns a signed duration (in the time units of \<open>timestamp\<close>) or an error.
\<close>

record dbhelper =
  MakePartitionTableName :: "string \<Rightarrow> string \<Rightarrow> string"
  ParseRetentionPeriod :: "string \<Rightarrow> error + int"

subsection \<open>SelectRecentMissValidatorVoteList\<close>

text \<open>
  SQL's \<^verbatim>\<open>MAX\<close> over a column: \<^verbatim>\<open>NULL\<close> (\<open>None\<close>) when there is no row.
\<close>

fun sql_max :: "int list \<Rightarrow> int option" where
  "sql_max [] = None"
| "sql_max (x # xs) = Some (fold max xs x)"

text \<open>
  Subtraction on SQL's 64-bit integers: \<^verbatim>\<open>NULL\<close> when an operand is \<^verbatim>\<open>NULL\<close>, and an
  error (not a wrap-around) when the result leaves the range.
\<close>

definition int64_min :: int where
  "int64_min = - (2 ^ 63)"

definition int64_max :: int where
  "int64_max = 2 ^ 63 - 1"

definition sql_int8_minus :: "int option \<Rightarrow> int \<Rightarrow> error + int option" where
  "sql_int8_minus a b =
     (case a of
        None \<Rightarrow> Inr None
      | Some x \<Rightarrow>
          if x - b < int64_min \<or> int64_max < x - b then Inl (Err ''bigint out of range'')
          else Inr (Some (x - b)))"

text \<open>
  A comparison in a \<^verbatim>\<open>WHERE\<close> clause keeps a row only when it is true: against
  \<^verbatim>\<open>NULL\<close> it is unknown, and the row is dropped.
\<close>

fun sql_where_gt :: "int \<Rightarrow> int option \<Rightarrow> bool" where
  "sql_where_gt x None = False"
| "sql_where_gt x (Some y) = (y < x)"

text \<open>
  \<^verbatim>\<open>FROM <partition> vidx JOIN meta.validator_info vi ON vidx.validator_hex_address_id = vi.id\<close>:
  one joined row for every pair of a vote and a validator with that id, here the
  validator's moniker next to the vote.
\<close>

definition join_validator_info ::
  "ValidatorVote list \<Rightarrow> ValidatorInfo list \<Rightarrow> (string \<times> ValidatorVote) list" where
  "join_validator_info rows infos =
     concat (map (\<lambda>v. map (\<lambda>vi. (vi_moniker vi, v))
                          (filter (\<lambda>vi. validator_hex_address_id v = vi_id vi) infos)) rows)"

text \<open>\<^verbatim>\<open>COUNT(CASE WHEN status = k THEN 1 END)\<close> over the rows of a group.\<close>

definition count_status :: "int \<Rightarrow> ValidatorVote list \<Rightarrow> int" where
  "count_status k vs = int (length (filter (\<lambda>v. status v = k) vs))"

text \<open>
  The select list over one group of \<^verbatim>\<open>GROUP BY vi.moniker\<close>. A group has at least one
  row: \<open>v\<close> is its first row and \<open>vs\<close> are the others.
\<close>

definition summarize :: "string \<Rightarrow> ValidatorVote \<Rightarrow> ValidatorVote list \<Rightarrow> RecentValidatorVote" where
  "summarize m v vs =
     \<lparr>moniker = m,
      max_height = fold max (map height vs) (height v),
      min_height = fold min (map height vs) (height v),
      missed = count_status 1 (v # vs),
      commited = count_status 2 (v # vs),
      proposed = count_status 3 (v # vs)\<rparr>"

text \<open>
  \<^verbatim>\<open>GROUP BY vi.moniker\<close>: one result row for each moniker among the joined rows. SQL
  fixes no order of the groups; here they come in the order of their first rows.
\<close>

fun group_by_moniker :: "(string \<times> ValidatorVote) list \<Rightarrow> RecentValidatorVote list" where
  "group_by_moniker [] = []"
| "group_by_moniker ((m, v) # rest) =
     summarize m v (map snd (filter (\<lambda>r. fst r = m) rest))
       # group_by_moniker (filter (\<lambda>r. fst r \<noteq> m) rest)"

text \<open>
  The raw query of \<^verbatim>\<open>SelectRecentMissValidatorVoteList\<close> on the partition \<open>t\<close>:
  the scalar subquery \<^verbatim>\<open>(SELECT MAX(height) FROM t)\<close>, minus 100, the \<^verbatim>\<open>WHERE\<close> clause
  on the joined rows, and the grouping.
\<close>

definition exec_select_recent ::
  "faults \<Rightarrow> storage \<Rightarrow> string \<Rightarrow> error + RecentValidatorVote list" where
  "exec_select_recent F db t =
     (case F SelectRecent of
        Some e \<Rightarrow> Inl e
      | None \<Rightarrow>
          (case tables db t of
             None \<Rightarrow> Inl (Err ''relation does not exist'')
           | Some rows \<Rightarrow>
               (case sql_int8_minus (sql_max (map height rows)) 100 of
                  Inl e \<Rightarrow> Inl e
                | Inr bound \<Rightarrow>
                    Inr (group_by_moniker
                          (filter (\<lambda>r. sql_where_gt (height (snd r)) bound)
                             (join_validator_info rows (validator_info db)))))))"

text \<open>
  The method returns the pair \<^verbatim>\<open>(rvvList, nil)\<close> or \<^verbatim>\<open>(nil, err)\<close>; a \<^verbatim>\<open>nil\<close> slice is
  the empty list.
\<close>

definition SelectRecentMissValidatorVoteList ::
  "dbhelper \<Rightarrow> faults \<Rightarrow> storage \<Rightarrow> string \<Rightarrow> RecentValidatorVote list \<times> error option" where
  "SelectRecentMissValidatorVoteList H F db chainID =
     (let partitionTableName = MakePartitionTableName H IndexName chainID in
      case exec_select_recent F db partitionTableName of
        Inl err \<Rightarrow> ([], Some err)
      | Inr rvvList \<Rightarrow> (rvvList, None))"

subsection \<open>DeleteOldValidatorVoteList\<close>

text \<open>
  \<^verbatim>\<open>DELETE FROM <partition> WHERE timestamp < ?\<close>: the rows that match go, the others
  stay in their order, and the statement reports how many rows it removed.
\<close>

definition exec_delete_old ::
  "faults \<Rightarrow> storage \<Rightarrow> string \<Rightarrow> int \<Rightarrow> error + (int \<times> storage)" where
  "exec_delete_old F db t cutoffTime =
     (case F DeleteOld of
        Some e \<Rightarrow> Inl e
      | None \<Rightarrow>
          (case tables db t of
             None \<Rightarrow> Inl (Err ''relation does not exist'')
           | Some rows \<Rightarrow>
               Inr (int (length (filter (\<lambda>v. timestamp v < cutoffTime) rows)),
                    db\<lparr>tables := (tables db)
                          (t \<mapsto> filter (\<lambda>v. \<not> timestamp v < cutoffTime) rows)\<rparr>)))"

text \<open>
  The method returns the pair of the deleted-row count and the error; \<open>now\<close> is what
  \<^verbatim>\<open>time.Now()\<close> returns during the call, in the time unit of the stored timestamps, and
  \<^verbatim>\<open>Add\<close> is the sum.
\<close>

definition DeleteOldValidatorVoteList ::
  "dbhelper \<Rightarrow> faults \<Rightarrow> int \<Rightarrow> storage \<Rightarrow> string \<Rightarrow> string
     \<Rightarrow> (int \<times> error option) \<times> storage" where
  "DeleteOldValidatorVoteList H F now db chainID retentionPeriod =
     (case ParseRetentionPeriod H retentionPeriod of
        Inl err \<Rightarrow> ((0, Some err), db)
      | Inr duration \<Rightarrow>
          (let cutoffTime = now + duration;
               partitionTableName = MakePartitionTableName H IndexName chainID in
           case exec_delete_old F db partitionTableName cutoffTime of
             Inl err \<Rightarrow> ((0, Some err), db)
           | Inr (rowsAffected, db') \<Rightarrow> ((rowsAffected, None), db')))"

subsection \<open>Sample data\<close>

text \<open>
  Concrete inputs on which the methods are run below. The helpers: a table name made of the
  index name and the chain id, and a parser that knows the one period \<^verbatim>\<open>1h\<close> (3600 time
  units back).
\<close>

definition sample_helper :: dbhelper where
  "sample_helper =
     \<lparr>MakePartitionTableName = (\<lambda>indexName chainID. indexName @ ''_'' @ chainID),
      ParseRetentionPeriod =
        (\<lambda>s. if s = ''1h'' then Inr (- 3600) else Inl (Err ''invalid retention period''))\<rparr>"

text \<open>
  A store with the empty partition of the chain \<^verbatim>\<open>testchain\<close> (chain 1), the pointer of the
  vote index of chain 1 at height 9, a pointer of another index of chain 1, the pointer of
  the vote index of chain 2, and one validator.
\<close>

definition sample_db :: storage where
  "sample_db =
     \<lparr>index_pointer =
        [\<lparr>chain_info_id = 1, index_name = ''voteindexer'', pointer = 9\<rparr>,
         \<lparr>chain_info_id = 1, index_name = ''blockindexer'', pointer = 7\<rparr>,
         \<lparr>chain_info_id = 2, index_name = ''voteindexer'', pointer = 5\<rparr>],
      validator_info = [\<lparr>vi_id = 1, vi_moniker = ''alice''\<rparr>],
      tables = [''voteindexer_testchain'' \<mapsto> []],
      partition_of = (\<lambda>v. ''voteindexer_testchain'')\<rparr>"

definition sample_vote :: "int \<Rightarrow> int \<Rightarrow> int \<Rightarrow> ValidatorVote" where
  "sample_vote h st ts =
     \<lparr>height = h, validator_hex_address_id = 1, status = st, timestamp = ts\<rparr>"

text \<open>Votes of validator 1 at the heights 10 (missed), 11 (missed) and 12 (committed).\<close>

definition sample_votes :: "ValidatorVote list" where
  "sample_votes = [sample_vote 10 1 1000, sample_vote 11 1 1001, sample_vote 12 2 1002]"

text \<open>The store with the given rows in the partition of \<^verbatim>\<open>testchain\<close>.\<close>

definition sample_db_with :: "ValidatorVote list \<Rightarrow> storage" where
  "sample_db_with rows = sample_db\<lparr>tables := [''voteindexer_testchain'' \<mapsto> rows]\<rparr>"

text \<open>A call during which the pointer update runs into the deadline.\<close>

definition update_times_out :: faults where
  "update_times_out = no_faults(UpdatePointer \<mapsto> Err ''context deadline exceeded'')"

text \<open>Rows at the heights 100, 101 and 200: with the maximum 200, the window starts above 100.\<close>

definition sample_window_votes :: "ValidatorVote list" where
  "sample_window_votes = [sample_vote 100 1 1000, sample_vote 101 1 1001, sample_vote 200 2 1100]"

text \<open>Rows with the statuses 1, 3 and 7.\<close>

definition sample_status_votes :: "ValidatorVote list" where
  "sample_status_votes = [sample_vote 10 1 1000, sample_vote 11 3 1001, sample_vote 12 7 1002]"

text \<open>Rows with the timestamps 99, 100 and 101.\<close>

definition sample_aged_votes :: "ValidatorVote list" where
  "sample_aged_votes = [sample_vote 10 1 99, sample_vote 11 1 100, sample_vote 12 2 101]"

section \<open>Properties\<close>

text \<open>The equations that evaluate the methods on the sample data.\<close>

lemmas sample_defs = sample_db_def sample_votes_def sample_vote_def sample_helper_def
  sample_db_with_def update_times_out_def no_faults_def
  sample_window_votes_def sample_status_votes_def sample_aged_votes_def

lemmas insert_defs = InsertValidatorVoteList_def RunInTx_def exec_insert_votes_def
  exec_update_pointer_def pointer_matches_def IndexName_def

lemmas select_defs = SelectRecentMissValidatorVoteList_def exec_select_recent_def
  sql_int8_minus_def int64_min_def int64_max_def join_validator_info_def summarize_def
  count_status_def IndexName_def Let_def

lemmas delete_defs = DeleteOldValidatorVoteList_def exec_delete_old_def IndexName_def Let_def

subsection \<open>The two paths of InsertValidatorVoteList\<close>

lemma InsertValidatorVoteList_Nil:
  "InsertValidatorVoteList F db c h [] =
     (case F UpdatePointer of
        Some e \<Rightarrow> (Some (Wrapf e ''failed to update new index pointer''), db)
      | None \<Rightarrow> (None, db\<lparr>index_pointer :=
          map (\<lambda>p. if pointer_matches c IndexName p then p\<lparr>pointer := h\<rparr> else p)
              (index_pointer db)\<rparr>))"
  by (simp add: InsertValidatorVoteList_def exec_update_pointer_def split: option.splits)

lemma InsertValidatorVoteList_nonempty_cases:
  assumes "votes \<noteq> []"
  shows "InsertValidatorVoteList F db c h votes =
     (case F BeginTx of Some e \<Rightarrow> (Some (Wrapf e ''failed to exec validator miss in a transaction''), db)
      | None \<Rightarrow>
     (case exec_insert_votes F db votes of
        Inl e \<Rightarrow> (Some (Wrapf (Wrapf e ''failed to insert validator_miss list'') ''failed to exec validator miss in a transaction''), db)
      | Inr tx \<Rightarrow>
     (case F UpdatePointer of
        Some e \<Rightarrow> (Some (Wrapf (Wrapf e ''failed to update new index pointer'') ''failed to exec validator miss in a transaction''), db)
      | None \<Rightarrow>
     (case F CommitTx of
        Some e \<Rightarrow> (Some (Wrapf e ''failed to exec validator miss in a transaction''), db)
      | None \<Rightarrow> (None, tx\<lparr>index_pointer := map (\<lambda>p. if pointer_matches c IndexName p then p\<lparr>pointer := h\<rparr> else p) (index_pointer tx)\<rparr>)))))"
  using assms
  by (simp add: InsertValidatorVoteList_def RunInTx_def exec_update_pointer_def
      split: option.splits sum.splits)

lemma update_rows_idem:
  "map (\<lambda>p. if pointer_matches c n p then p\<lparr>pointer := h\<rparr> else p)
     (map (\<lambda>p. if pointer_matches c n p then p\<lparr>pointer := h\<rparr> else p) ps) =
   map (\<lambda>p. if pointer_matches c n p then p\<lparr>pointer := h\<rparr> else p) ps"
  by (induction ps) (auto simp: pointer_matches_def)

lemma update_rows_no_match:
  "\<forall>p \<in> set ps. \<not> pointer_matches c n p \<Longrightarrow>
   map (\<lambda>p. if pointer_matches c n p then p\<lparr>pointer := h\<rparr> else p) ps = ps"
  by (induction ps) auto

lemma exec_insert_votes_index_pointer:
  "exec_insert_votes F db votes = Inr tx \<Longrightarrow> index_pointer tx = index_pointer db"
  by (auto simp: exec_insert_votes_def split: option.splits if_splits)

lemma InsertValidatorVoteList_index_pointer:
  "index_pointer (snd (InsertValidatorVoteList F db c h votes)) = index_pointer db \<or>
   index_pointer (snd (InsertValidatorVoteList F db c h votes)) =
     map (\<lambda>p. if pointer_matches c IndexName p then p\<lparr>pointer := h\<rparr> else p) (index_pointer db)"
proof (cases "votes = []")
  case True
  then show ?thesis
    by (simp add: InsertValidatorVoteList_Nil split: option.splits)
next
  case False
  then show ?thesis
    by (auto simp: InsertValidatorVoteList_nonempty_cases
        dest: exec_insert_votes_index_pointer split: option.splits sum.splits)
qed

lemma update_rows_pointer:
  assumes "p \<in> set (map (\<lambda>p. if pointer_matches c n p then p\<lparr>pointer := h\<rparr> else p) ps)"
    and "pointer_matches c n p"
  shows "pointer p = h"
proof -
  from assms(1) obtain q
    where q: "p = (if pointer_matches c n q then q\<lparr>pointer := h\<rparr> else q)"
    by (auto simp only: set_map image_iff)
  show ?thesis
  proof (cases "pointer_matches c n q")
    case True
    with q show ?thesis by simp
  next
    case False
    with q assms(2) show ?thesis by simp
  qed
qed

lemma InsertValidatorVoteList_Nil_again:
  assumes "F UpdatePointer = None"
  shows "snd (InsertValidatorVoteList F' (snd (InsertValidatorVoteList F db c h [])) c h [])
           = snd (InsertValidatorVoteList F db c h [])"
proof (cases "F' UpdatePointer")
  case None
  with assms show ?thesis
    by (simp add: InsertValidatorVoteList_Nil update_rows_idem)
next
  case (Some e)
  with assms show ?thesis
    by (simp add: InsertValidatorVoteList_Nil)
qed

text \<open>
  Claim C1. With a non-empty batch, the insert of the vote rows and the pointer update are
  one atomic unit. If the call returns an error, the store is as it was before the call:
  no vote row is stored and every pointer has its prior value. If it returns no error,
  every vote row is stored, at the end of its partition, and the pointer rows of
  \<open>(chainInfoID, ''voteindexer'')\<close> hold \<open>indexPointerHeight\<close>. The call returns no
  error exactly when none of its four requests fails and every row has a partition.
\<close>

theorem InsertValidatorVoteList_atomic:
  assumes "votes \<noteq> []"
  shows "(case InsertValidatorVoteList F db c h votes of
      (Some e, db') \<Rightarrow> db' = db
    | (None, db') \<Rightarrow>
        index_pointer db' =
          map (\<lambda>p. if chain_info_id p = c \<and> index_name p = ''voteindexer''
                    then p\<lparr>pointer := h\<rparr> else p) (index_pointer db) \<and>
        (\<forall>t. tables db' t =
          (case tables db t of None \<Rightarrow> None
           | Some rows \<Rightarrow> Some (rows @ filter (\<lambda>v. partition_of db v = t) votes))) \<and>
        (\<forall>v \<in> set votes. \<exists>rows. tables db' (partition_of db v) = Some rows \<and> v \<in> set rows) \<and>
        validator_info db' = validator_info db \<and> partition_of db' = partition_of db)
    \<and> (fst (InsertValidatorVoteList F db c h votes) = None \<longleftrightarrow>
         F BeginTx = None \<and> F InsertVotes = None \<and> F UpdatePointer = None \<and> F CommitTx = None \<and>
         (\<forall>v \<in> set votes. tables db (partition_of db v) \<noteq> None))"
  unfolding InsertValidatorVoteList_nonempty_cases[OF assms]
  by (auto simp: exec_insert_votes_def pointer_matches_def IndexName_def split: option.splits)

text \<open>
  On the sample store: when the pointer update times out, the three votes are not stored and
  the store is as before; when nothing fails, the votes are in the partition and the pointer
  of chain 1 is at 12.
\<close>

theorem InsertValidatorVoteList_atomic_witness:
  "sample_votes \<noteq> [] \<and>
   InsertValidatorVoteList update_times_out sample_db 1 12 sample_votes =
     (Some (Wrapf (Wrapf (Err ''context deadline exceeded'') ''failed to update new index pointer'')
              ''failed to exec validator miss in a transaction''), sample_db) \<and>
   fst (InsertValidatorVoteList no_faults sample_db 1 12 sample_votes) = None \<and>
   map pointer (index_pointer (snd (InsertValidatorVoteList no_faults sample_db 1 12 sample_votes)))
     = [12, 7, 5] \<and>
   tables (snd (InsertValidatorVoteList no_faults sample_db 1 12 sample_votes))
     ''voteindexer_testchain'' = Some sample_votes"
proof -
  have ne: "sample_votes \<noteq> []"
    by (simp add: sample_votes_def)
  show ?thesis
    using InsertValidatorVoteList_atomic[OF ne, where F = update_times_out and db = sample_db and c = 1 and h = 12]
      InsertValidatorVoteList_atomic[OF ne, where F = no_faults and db = sample_db and c = 1 and h = 12]
    by (simp add: sample_defs insert_defs)
qed

text \<open>
  Claim C2. With an empty batch the call is the pointer update alone: it sets the pointer
  of the rows of \<open>(chainInfoID, ''voteindexer'')\<close> and stores no vote row. After a call
  that returned no error the pointer of these rows is the given height, and a second
  call with the same height leaves the store as the first one left it.
\<close>

theorem InsertValidatorVoteList_empty_batch:
  "InsertValidatorVoteList F db c h [] =
     (case F UpdatePointer of
        Some e \<Rightarrow> (Some (Wrapf e ''failed to update new index pointer''), db)
      | None \<Rightarrow> (None, db\<lparr>index_pointer :=
          map (\<lambda>p. if chain_info_id p = c \<and> index_name p = ''voteindexer''
                    then p\<lparr>pointer := h\<rparr> else p)
              (index_pointer db)\<rparr>)) \<and>
   tables (snd (InsertValidatorVoteList F db c h [])) = tables db \<and>
   (F UpdatePointer = None \<longrightarrow>
      (\<forall>p \<in> set (index_pointer (snd (InsertValidatorVoteList F db c h []))).
          chain_info_id p = c \<and> index_name p = ''voteindexer'' \<longrightarrow> pointer p = h) \<and>
      (\<forall>F'. snd (InsertValidatorVoteList F' (snd (InsertValidatorVoteList F db c h [])) c h [])
             = snd (InsertValidatorVoteList F db c h [])))"
proof (intro conjI impI allI ballI)
  show "InsertValidatorVoteList F db c h [] =
     (case F UpdatePointer of
        Some e \<Rightarrow> (Some (Wrapf e ''failed to update new index pointer''), db)
      | None \<Rightarrow> (None, db\<lparr>index_pointer :=
          map (\<lambda>p. if chain_info_id p = c \<and> index_name p = ''voteindexer''
                    then p\<lparr>pointer := h\<rparr> else p)
              (index_pointer db)\<rparr>))"
    by (simp add: InsertValidatorVoteList_Nil pointer_matches_def IndexName_def split: option.splits)
  show "tables (snd (InsertValidatorVoteList F db c h [])) = tables db"
    by (simp add: InsertValidatorVoteList_Nil split: option.splits)
next
  fix p
  assume ok: "F UpdatePointer = None"
    and p: "p \<in> set (index_pointer (snd (InsertValidatorVoteList F db c h [])))"
    and m: "chain_info_id p = c \<and> index_name p = ''voteindexer''"
  from ok p have "p \<in> set (map (\<lambda>p. if pointer_matches c IndexName p then p\<lparr>pointer := h\<rparr> else p)
      (index_pointer db))"
    by (simp add: InsertValidatorVoteList_Nil)
  moreover from m have "pointer_matches c IndexName p"
    by (simp add: pointer_matches_def IndexName_def)
  ultimately show "pointer p = h"
    by (rule update_rows_pointer)
next
  fix F'
  assume "F UpdatePointer = None"
  then show "snd (InsertValidatorVoteList F' (snd (InsertValidatorVoteList F db c h [])) c h [])
             = snd (InsertValidatorVoteList F db c h [])"
    by (rule InsertValidatorVoteList_Nil_again)
qed

text \<open>
  On the sample store: the empty batch moves the pointer of chain 1 to 12, and doing it again
  changes nothing.
\<close>

theorem InsertValidatorVoteList_empty_batch_witness:
  "InsertValidatorVoteList no_faults sample_db 1 12 [] =
     (None, sample_db\<lparr>index_pointer :=
        [\<lparr>chain_info_id = 1, index_name = ''voteindexer'', pointer = 12\<rparr>,
         \<lparr>chain_info_id = 1, index_name = ''blockindexer'', pointer = 7\<rparr>,
         \<lparr>chain_info_id = 2, index_name = ''voteindexer'', pointer = 5\<rparr>]\<rparr>) \<and>
   InsertValidatorVoteList no_faults
      (snd (InsertValidatorVoteList no_faults sample_db 1 12 [])) 1 12 [] =
     InsertValidatorVoteList no_faults sample_db 1 12 [] \<and>
   tables (snd (InsertValidatorVoteList no_faults sample_db 1 12 [])) = tables sample_db"
  using InsertValidatorVoteList_empty_batch[where F = no_faults and db = sample_db and c = 1 and h = 12]
  by (simp add: sample_defs insert_defs)

text \<open>
  Claim C7. When no pointer row matches \<open>(chainInfoID, ''voteindexer'')\<close>, the pointer
  update is a silent no-op: the empty-batch call returns no error and leaves the store
  unchanged, and the call with a batch, when none of its requests fails, returns no error
  and leaves the pointer table unchanged.
\<close>

theorem InsertValidatorVoteList_missing_pointer_row:
  assumes "\<forall>p \<in> set (index_pointer db). \<not> (chain_info_id p = c \<and> index_name p = ''voteindexer'')"
  shows "(F UpdatePointer = None \<longrightarrow> InsertValidatorVoteList F db c h [] = (None, db)) \<and>
         (votes \<noteq> [] \<longrightarrow> F BeginTx = None \<longrightarrow> F InsertVotes = None \<longrightarrow> F UpdatePointer = None \<longrightarrow> F CommitTx = None \<longrightarrow>
            (\<forall>v \<in> set votes. tables db (partition_of db v) \<noteq> None) \<longrightarrow>
            fst (InsertValidatorVoteList F db c h votes) = None \<and>
            index_pointer (snd (InsertValidatorVoteList F db c h votes)) = index_pointer db)"
proof -
  have nm: "\<forall>p \<in> set (index_pointer db). \<not> pointer_matches c IndexName p"
    using assms by (simp add: pointer_matches_def IndexName_def)
  have 1: "InsertValidatorVoteList F db c h [] = (None, db)" if "F UpdatePointer = None"
    using that by (simp add: InsertValidatorVoteList_Nil update_rows_no_match[OF nm])
  have 2: "fst (InsertValidatorVoteList F db c h votes) = None \<and>
            index_pointer (snd (InsertValidatorVoteList F db c h votes)) = index_pointer db"
    if "votes \<noteq> []" "F BeginTx = None" "F InsertVotes = None" "F UpdatePointer = None" "F CommitTx = None"
       "\<forall>v \<in> set votes. tables db (partition_of db v) \<noteq> None"
  proof -
    from that(3,6) obtain tx where tx: "exec_insert_votes F db votes = Inr tx"
      by (simp add: exec_insert_votes_def)
    then have "index_pointer tx = index_pointer db"
      by (rule exec_insert_votes_index_pointer)
    with tx that show ?thesis
      by (simp add: InsertValidatorVoteList_nonempty_cases update_rows_no_match[OF nm])
  qed
  from 1 2 show ?thesis by blast
qed

text \<open>
  On the sample store, which has no pointer row of chain 3.
\<close>

theorem InsertValidatorVoteList_missing_pointer_row_witness:
  "filter (\<lambda>p. chain_info_id p = 3 \<and> index_name p = ''voteindexer'') (index_pointer sample_db) = [] \<and>
   InsertValidatorVoteList no_faults sample_db 3 12 [] = (None, sample_db) \<and>
   fst (InsertValidatorVoteList no_faults sample_db 3 12 sample_votes) = None \<and>
   index_pointer (snd (InsertValidatorVoteList no_faults sample_db 3 12 sample_votes))
     = index_pointer sample_db"
proof -
  have h: "\<forall>p \<in> set (index_pointer sample_db). \<not> (chain_info_id p = 3 \<and> index_name p = ''voteindexer'')"
    by (simp add: sample_db_def)
  show ?thesis
    using h InsertValidatorVoteList_missing_pointer_row[OF h, where F = no_faults and h = 12 and votes = sample_votes]
    by (simp add: sample_defs insert_defs)
qed

text \<open>
  Claim C10. Whatever the batch and whatever fails, a call changes no pointer row of
  another chain or of another index name than \<^verbatim>\<open>voteindexer\<close>; the rows keep their
  places, their chain and their index name.
\<close>

theorem InsertValidatorVoteList_frame:
  "length (index_pointer (snd (InsertValidatorVoteList F db c h votes))) = length (index_pointer db) \<and>
   (\<forall>i < length (index_pointer db).
      chain_info_id (index_pointer (snd (InsertValidatorVoteList F db c h votes)) ! i)
        = chain_info_id (index_pointer db ! i) \<and>
      index_name (index_pointer (snd (InsertValidatorVoteList F db c h votes)) ! i)
        = index_name (index_pointer db ! i) \<and>
      (chain_info_id (index_pointer db ! i) \<noteq> c \<or> index_name (index_pointer db ! i) \<noteq> ''voteindexer''
        \<longrightarrow> index_pointer (snd (InsertValidatorVoteList F db c h votes)) ! i = index_pointer db ! i))"
proof -
  let ?ps' = "index_pointer (snd (InsertValidatorVoteList F db c h votes))"
  let ?upd = "\<lambda>p. if pointer_matches c IndexName p then p\<lparr>pointer := h\<rparr> else p"
  from InsertValidatorVoteList_index_pointer[of F db c h votes]
  have "?ps' = index_pointer db \<or> ?ps' = map ?upd (index_pointer db)" .
  then show ?thesis
  proof
    assume "?ps' = index_pointer db"
    then show ?thesis by simp
  next
    assume "?ps' = map ?upd (index_pointer db)"
    then show ?thesis
      by (simp add: pointer_matches_def IndexName_def)
  qed
qed

text \<open>
  On the sample store: the rows of the other index and of chain 2 stay as they are.
\<close>

theorem InsertValidatorVoteList_frame_witness:
  "index_pointer (snd (InsertValidatorVoteList no_faults sample_db 1 12 sample_votes)) ! 1
     = \<lparr>chain_info_id = 1, index_name = ''blockindexer'', pointer = 7\<rparr> \<and>
   index_pointer (snd (InsertValidatorVoteList no_faults sample_db 1 12 sample_votes)) ! 2
     = \<lparr>chain_info_id = 2, index_name = ''voteindexer'', pointer = 5\<rparr> \<and>
   index_pointer (snd (InsertValidatorVoteList no_faults sample_db 1 12 sample_votes)) ! 0
     = \<lparr>chain_info_id = 1, index_name = ''voteindexer'', pointer = 12\<rparr>"
  using InsertValidatorVoteList_frame[where F = no_faults and db = sample_db and c = 1 and h = 12 and votes = sample_votes]
  by (simp add: sample_defs insert_defs)

subsection \<open>Grouping and aggregation\<close>

lemma fold_max_Max: "fold max xs (x::int) = Max (set (x # xs))"
  by (rule Max.set_eq_fold[symmetric])

lemma fold_min_Min: "fold min xs (x::int) = Min (set (x # xs))"
  by (rule Min.set_eq_fold[symmetric])

lemma sql_max_Max: "xs \<noteq> [] \<Longrightarrow> sql_max xs = Some (Max (set xs))"
  by (cases xs) (simp_all add: Max.set_eq_fold del: set_simps)

lemma moniker_summarize [simp]: "moniker (summarize m v vs) = m"
  by (simp add: summarize_def)

lemma group_by_moniker_monikers:
  "moniker ` set (group_by_moniker js) = fst ` set js"
  by (induction js rule: group_by_moniker.induct) auto

lemma group_by_moniker_distinct:
  "distinct (map moniker (group_by_moniker js))"
  by (induction js rule: group_by_moniker.induct) (auto simp: group_by_moniker_monikers)

lemma filter_other_moniker:
  "n \<noteq> m \<Longrightarrow> filter (\<lambda>r. fst r = n) (filter (\<lambda>r. fst r \<noteq> m) js) = filter (\<lambda>r. fst r = n) js"
  by (induction js) auto

lemma group_by_moniker_summary:
  "s \<in> set (group_by_moniker js) \<Longrightarrow>
   \<exists>v vs. map snd (filter (\<lambda>r. fst r = moniker s) js) = v # vs \<and> s = summarize (moniker s) v vs"
proof (induction js rule: group_by_moniker.induct)
  case 1
  then show ?case by simp
next
  case (2 m v rest)
  show ?case
  proof (cases "s = summarize m v (map snd (filter (\<lambda>r. fst r = m) rest))")
    case True
    then show ?thesis by simp
  next
    case False
    with "2.prems" have in_tl: "s \<in> set (group_by_moniker (filter (\<lambda>r. fst r \<noteq> m) rest))"
      by simp
    then have "moniker s \<in> fst ` set (filter (\<lambda>r. fst r \<noteq> m) rest)"
      using group_by_moniker_monikers by blast
    then have neq: "moniker s \<noteq> m" by auto
    from "2.IH"[OF in_tl]
    have "\<exists>v vs. map snd (filter (\<lambda>r. fst r = moniker s) rest) = v # vs \<and>
            s = summarize (moniker s) v vs"
      by (simp only: filter_other_moniker[OF neq])
    moreover from neq
    have "filter (\<lambda>r. fst r = moniker s) ((m, v) # rest) = filter (\<lambda>r. fst r = moniker s) rest"
      by auto
    ultimately show ?thesis
      by (simp only:)
  qed
qed

lemma summarize_fields:
  assumes "g = v # vs"
  shows "max_height (summarize m v vs) = Max (height ` set g)"
    and "min_height (summarize m v vs) = Min (height ` set g)"
    and "missed (summarize m v vs) = int (length (filter (\<lambda>v. status v = 1) g))"
    and "commited (summarize m v vs) = int (length (filter (\<lambda>v. status v = 2) g))"
    and "proposed (summarize m v vs) = int (length (filter (\<lambda>v. status v = 3) g))"
proof -
  have hs: "set (height v # map height vs) = height ` set g"
    using assms by simp
  show "max_height (summarize m v vs) = Max (height ` set g)"
    by (simp only: summarize_def RecentValidatorVote.simps fold_max_Max hs)
  show "min_height (summarize m v vs) = Min (height ` set g)"
    by (simp only: summarize_def RecentValidatorVote.simps fold_min_Min hs)
  show "missed (summarize m v vs) = int (length (filter (\<lambda>v. status v = 1) g))"
    using assms by (simp add: summarize_def count_status_def)
  show "commited (summarize m v vs) = int (length (filter (\<lambda>v. status v = 2) g))"
    using assms by (simp add: summarize_def count_status_def)
  show "proposed (summarize m v vs) = int (length (filter (\<lambda>v. status v = 3) g))"
    using assms by (simp add: summarize_def count_status_def)
qed

lemma join_validator_info_iff:
  "(m, v) \<in> set (join_validator_info rows infos) \<longleftrightarrow>
     v \<in> set rows \<and> (\<exists>vi \<in> set infos. vi_id vi = validator_hex_address_id v \<and> vi_moniker vi = m)"
  by (force simp: join_validator_info_def)

lemma group_by_moniker_fields:
  assumes "s \<in> set (group_by_moniker js)" and "W = map snd (filter (\<lambda>r. fst r = moniker s) js)"
  shows "W \<noteq> [] \<and> max_height s = Max (height ` set W) \<and> min_height s = Min (height ` set W) \<and>
     missed s = int (length (filter (\<lambda>v. status v = 1) W)) \<and>
     commited s = int (length (filter (\<lambda>v. status v = 2) W)) \<and>
     proposed s = int (length (filter (\<lambda>v. status v = 3) W))"
proof -
  from group_by_moniker_summary[OF assms(1)] assms(2) obtain v vs
    where W: "W = v # vs" and s: "s = summarize (moniker s) v vs"
    by auto
  note f = summarize_fields[OF W, of "moniker s"]
  have "max_height s = Max (height ` set W)"
    using arg_cong[OF s, of max_height] f(1) by (rule trans)
  moreover have "min_height s = Min (height ` set W)"
    using arg_cong[OF s, of min_height] f(2) by (rule trans)
  moreover have "missed s = int (length (filter (\<lambda>v. status v = 1) W))"
    using arg_cong[OF s, of missed] f(3) by (rule trans)
  moreover have "commited s = int (length (filter (\<lambda>v. status v = 2) W))"
    using arg_cong[OF s, of commited] f(4) by (rule trans)
  moreover have "proposed s = int (length (filter (\<lambda>v. status v = 3) W))"
    using arg_cong[OF s, of proposed] f(5) by (rule trans)
  moreover from W have "W \<noteq> []" by simp
  ultimately show ?thesis by blast
qed

lemma exec_select_recent_cases:
  assumes "tables db t = Some rows" and "rows \<noteq> []" and "M = Max (height ` set rows)"
  shows "exec_select_recent F db t =
     (case F SelectRecent of
        Some e \<Rightarrow> Inl e
      | None \<Rightarrow>
          if M - 100 < int64_min \<or> int64_max < M - 100 then Inl (Err ''bigint out of range'')
          else Inr (group_by_moniker (filter (\<lambda>r. M - 100 < height (snd r))
                      (join_validator_info rows (validator_info db)))))"
proof -
  from assms(2) have "sql_max (map height rows) = Some (Max (set (map height rows)))"
    by (intro sql_max_Max) simp
  with assms(3) have "sql_max (map height rows) = Some M"
    by simp
  with assms(1) show ?thesis
    by (simp add: exec_select_recent_def sql_int8_minus_def split: option.splits)
qed

lemma exec_select_recent_empty:
  assumes "F SelectRecent = None" and "tables db t = Some []"
  shows "exec_select_recent F db t = Inr []"
  using assms by (simp add: exec_select_recent_def sql_int8_minus_def join_validator_info_def)

lemma exec_select_recent_Inr:
  assumes "exec_select_recent F db t = Inr res" and "tables db t = Some rows" and "s \<in> set res"
  shows "rows \<noteq> [] \<and> res = group_by_moniker (filter (\<lambda>r. Max (height ` set rows) - 100 < height (snd r))
            (join_validator_info rows (validator_info db)))"
proof -
  from assms have ok: "F SelectRecent = None"
    by (auto simp: exec_select_recent_def split: option.splits)
  have ne: "rows \<noteq> []"
  proof
    assume "rows = []"
    with ok assms(2) have "exec_select_recent F db t = Inr []"
      by (simp add: exec_select_recent_empty)
    with assms(1,3) show False by simp
  qed
  then have mx: "sql_max (map height rows) = Some (Max (height ` set rows))"
    using sql_max_Max[of "map height rows"] by simp
  from assms(1,2) ok mx show ?thesis
    using ne by (auto simp: exec_select_recent_def sql_int8_minus_def split: if_splits)
qed

lemma window_group:
  "map snd (filter (\<lambda>r. fst r = m) (filter (\<lambda>r. b < height (snd r)) js)) =
   map snd (filter (\<lambda>r. fst r = m \<and> b < height (snd r)) js)"
  by (simp add: conj_commute)

lemma window_summaries:
  assumes res: "res = group_by_moniker (filter (\<lambda>r. b < height (snd r)) (join_validator_info rows infos))"
  shows "distinct (map moniker res)"
    and "m \<in> moniker ` set res \<longleftrightarrow>
         (\<exists>v \<in> set rows. b < height v \<and>
            (\<exists>vi \<in> set infos. vi_id vi = validator_hex_address_id v \<and> vi_moniker vi = m))"
    and "s \<in> set res \<Longrightarrow> W = map snd (filter (\<lambda>r. fst r = moniker s \<and> b < height (snd r))
                                         (join_validator_info rows infos)) \<Longrightarrow>
         W \<noteq> [] \<and> set W \<subseteq> set rows \<and> (\<forall>v \<in> set W. b < height v) \<and>
         max_height s = Max (height ` set W) \<and> min_height s = Min (height ` set W) \<and>
         missed s = int (length (filter (\<lambda>v. status v = 1) W)) \<and>
         commited s = int (length (filter (\<lambda>v. status v = 2) W)) \<and>
         proposed s = int (length (filter (\<lambda>v. status v = 3) W))"
proof -
  show "distinct (map moniker res)"
    unfolding res by (rule group_by_moniker_distinct)
  have "m \<in> moniker ` set res \<longleftrightarrow>
      m \<in> fst ` set (filter (\<lambda>r. b < height (snd r)) (join_validator_info rows infos))"
    unfolding res by (simp only: group_by_moniker_monikers)
  also have "\<dots> \<longleftrightarrow> (\<exists>v. (m, v) \<in> set (join_validator_info rows infos) \<and> b < height v)"
    by force
  also have "\<dots> \<longleftrightarrow> (\<exists>v \<in> set rows. b < height v \<and>
            (\<exists>vi \<in> set infos. vi_id vi = validator_hex_address_id v \<and> vi_moniker vi = m))"
    by (auto simp: join_validator_info_iff)
  finally show "m \<in> moniker ` set res \<longleftrightarrow>
         (\<exists>v \<in> set rows. b < height v \<and>
            (\<exists>vi \<in> set infos. vi_id vi = validator_hex_address_id v \<and> vi_moniker vi = m))" .
next
  assume s: "s \<in> set res"
    and W: "W = map snd (filter (\<lambda>r. fst r = moniker s \<and> b < height (snd r))
                                         (join_validator_info rows infos))"
  from s have "s \<in> set (group_by_moniker (filter (\<lambda>r. b < height (snd r)) (join_validator_info rows infos)))"
    by (simp only: res)
  moreover from W have "W = map snd (filter (\<lambda>r. fst r = moniker s)
      (filter (\<lambda>r. b < height (snd r)) (join_validator_info rows infos)))"
    by (simp only: window_group)
  ultimately have f: "W \<noteq> [] \<and> max_height s = Max (height ` set W) \<and> min_height s = Min (height ` set W) \<and>
     missed s = int (length (filter (\<lambda>v. status v = 1) W)) \<and>
     commited s = int (length (filter (\<lambda>v. status v = 2) W)) \<and>
     proposed s = int (length (filter (\<lambda>v. status v = 3) W))"
    by (rule group_by_moniker_fields)
  have "set W \<subseteq> set rows"
    unfolding W by (auto simp: join_validator_info_iff)
  moreover have "\<forall>v \<in> set W. b < height v"
    unfolding W by auto
  ultimately show "W \<noteq> [] \<and> set W \<subseteq> set rows \<and> (\<forall>v \<in> set W. b < height v) \<and>
         max_height s = Max (height ` set W) \<and> min_height s = Min (height ` set W) \<and>
         missed s = int (length (filter (\<lambda>v. status v = 1) W)) \<and>
         commited s = int (length (filter (\<lambda>v. status v = 2) W)) \<and>
         proposed s = int (length (filter (\<lambda>v. status v = 3) W))"
    using f by blast
qed

subsection \<open>The window of SelectRecentMissValidatorVoteList\<close>

text \<open>
  Claim C3. On a partition with rows and maximum height \<open>M\<close> the method returns no error
  exactly when the store runs the query and \<open>M - 100\<close> is a 64-bit integer. It then
  returns one summary per moniker that has a joined row of height above \<open>M - 100\<close>, and
  each summary aggregates exactly the joined rows of its moniker with \<open>M - 100 < height\<close>.
  So no summary reaches down to \<open>M - 100\<close>, and a row at \<open>M - 99\<close> of a known
  validator is in its summary, which then starts at \<open>M - 99\<close>.
\<close>

theorem SelectRecentMissValidatorVoteList_window:
  assumes part: "tables db (MakePartitionTableName H IndexName chainID) = Some rows"
    and ne: "rows \<noteq> []"
    and M: "M = Max (height ` set rows)"
    and R: "R = SelectRecentMissValidatorVoteList H F db chainID"
  shows "(snd R = None \<longleftrightarrow>
            F SelectRecent = None \<and> int64_min \<le> M - 100 \<and> M - 100 \<le> int64_max) \<and>
     (snd R = None \<longrightarrow>
       distinct (map moniker (fst R)) \<and>
       (\<forall>m. m \<in> moniker ` set (fst R) \<longleftrightarrow>
          (\<exists>v \<in> set rows. M - 100 < height v \<and>
             (\<exists>vi \<in> set (validator_info db).
                 vi_id vi = validator_hex_address_id v \<and> vi_moniker vi = m))) \<and>
       (\<forall>s \<in> set (fst R).
          (let W = map snd (filter (\<lambda>r. fst r = moniker s \<and> M - 100 < height (snd r))
                             (join_validator_info rows (validator_info db)))
           in max_height s = Max (height ` set W) \<and>
              min_height s = Min (height ` set W) \<and>
              missed s = int (length (filter (\<lambda>v. status v = 1) W)) \<and>
              commited s = int (length (filter (\<lambda>v. status v = 2) W)) \<and>
              proposed s = int (length (filter (\<lambda>v. status v = 3) W))) \<and>
          M - 100 < min_height s \<and> max_height s \<le> M) \<and>
       (\<forall>v \<in> set rows. \<forall>vi \<in> set (validator_info db).
          vi_id vi = validator_hex_address_id v \<and> height v = M - 99 \<longrightarrow>
          (\<exists>s \<in> set (fst R). moniker s = vi_moniker vi \<and> min_height s = M - 99)))"
proof -
  define res where "res = group_by_moniker (filter (\<lambda>r. M - 100 < height (snd r))
            (join_validator_info rows (validator_info db)))"
  note ws = window_summaries[OF res_def]
  note cases = exec_select_recent_cases[where F = F and t = "MakePartitionTableName H IndexName chainID",
      OF part ne M]
  have ok_iff: "snd R = None \<longleftrightarrow>
      F SelectRecent = None \<and> int64_min \<le> M - 100 \<and> M - 100 \<le> int64_max"
    unfolding R using cases
    by (auto simp: SelectRecentMissValidatorVoteList_def split: option.splits)
  have run: "fst R = res" if "snd R = None"
  proof -
    from that ok_iff have "F SelectRecent = None" "\<not> (M - 100 < int64_min \<or> int64_max < M - 100)"
      by auto
    with cases show ?thesis
      unfolding R by (simp add: SelectRecentMissValidatorVoteList_def res_def)
  qed
  have mem: "\<forall>m. m \<in> moniker ` set res \<longleftrightarrow>
        (\<exists>v \<in> set rows. M - 100 < height v \<and>
           (\<exists>vi \<in> set (validator_info db).
               vi_id vi = validator_hex_address_id v \<and> vi_moniker vi = m))"
    using ws(2) by blast
  have fields: "(let W = map snd (filter (\<lambda>r. fst r = moniker s \<and> M - 100 < height (snd r))
                           (join_validator_info rows (validator_info db)))
         in max_height s = Max (height ` set W) \<and>
            min_height s = Min (height ` set W) \<and>
            missed s = int (length (filter (\<lambda>v. status v = 1) W)) \<and>
            commited s = int (length (filter (\<lambda>v. status v = 2) W)) \<and>
            proposed s = int (length (filter (\<lambda>v. status v = 3) W))) \<and>
        M - 100 < min_height s \<and> max_height s \<le> M" if s: "s \<in> set res" for s
  proof -
    define W where "W = map snd (filter (\<lambda>r. fst r = moniker s \<and> M - 100 < height (snd r))
                           (join_validator_info rows (validator_info db)))"
    note w = ws(3)[OF s W_def]
    from w have Wne: "height ` set W \<noteq> {}" and fin: "finite (height ` set W)"
      by simp_all
    from w have "\<forall>a \<in> height ` set W. M - 100 < a" by blast
    with fin Wne have "M - 100 < Min (height ` set W)"
      by (simp add: Min_gr_iff)
    with w have lo: "M - 100 < min_height s"
      by simp
    have "\<forall>a \<in> height ` set W. a \<le> M"
    proof
      fix a assume "a \<in> height ` set W"
      with w have "a \<in> height ` set rows" by blast
      then show "a \<le> M" unfolding M by (intro Max_ge) simp_all
    qed
    with fin Wne have "Max (height ` set W) \<le> M"
      by (simp add: Max_le_iff)
    with w have hi: "max_height s \<le> M"
      by simp
    from w lo hi show ?thesis
      unfolding Let_def W_def[symmetric] by blast
  qed
  have incl: "\<exists>s \<in> set res. moniker s = vi_moniker vi \<and> min_height s = M - 99"
    if v: "v \<in> set rows" and vi: "vi \<in> set (validator_info db)"
      and j: "vi_id vi = validator_hex_address_id v" and h: "height v = M - 99" for v vi
  proof -
    from v vi j h have "vi_moniker vi \<in> moniker ` set res"
      by (subst ws(2)) force
    then obtain s where s: "s \<in> set res" and ms: "moniker s = vi_moniker vi"
      by auto
    define W where "W = map snd (filter (\<lambda>r. fst r = moniker s \<and> M - 100 < height (snd r))
                           (join_validator_info rows (validator_info db)))"
    note w = ws(3)[OF s W_def]
    from v vi j have "(vi_moniker vi, v) \<in> set (join_validator_info rows (validator_info db))"
      by (auto simp: join_validator_info_iff)
    with ms h have "v \<in> set W"
      unfolding W_def by force
    then have "Min (height ` set W) \<le> height v"
      by (intro Min_le) simp_all
    with w h have "min_height s \<le> M - 99" by simp
    moreover from fields[OF s] have "M - 100 < min_height s" by blast
    ultimately have "min_height s = M - 99" by simp
    with s ms show ?thesis by blast
  qed
  have all: "distinct (map moniker (fst R)) \<and>
       (\<forall>m. m \<in> moniker ` set (fst R) \<longleftrightarrow>
          (\<exists>v \<in> set rows. M - 100 < height v \<and>
             (\<exists>vi \<in> set (validator_info db).
                 vi_id vi = validator_hex_address_id v \<and> vi_moniker vi = m))) \<and>
       (\<forall>s \<in> set (fst R).
          (let W = map snd (filter (\<lambda>r. fst r = moniker s \<and> M - 100 < height (snd r))
                             (join_validator_info rows (validator_info db)))
           in max_height s = Max (height ` set W) \<and>
              min_height s = Min (height ` set W) \<and>
              missed s = int (length (filter (\<lambda>v. status v = 1) W)) \<and>
              commited s = int (length (filter (\<lambda>v. status v = 2) W)) \<and>
              proposed s = int (length (filter (\<lambda>v. status v = 3) W))) \<and>
          M - 100 < min_height s \<and> max_height s \<le> M) \<and>
       (\<forall>v \<in> set rows. \<forall>vi \<in> set (validator_info db).
          vi_id vi = validator_hex_address_id v \<and> height v = M - 99 \<longrightarrow>
          (\<exists>s \<in> set (fst R). moniker s = vi_moniker vi \<and> min_height s = M - 99))"
    if "snd R = None"
    unfolding run[OF that] using ws(1) mem fields incl by blast
  from ok_iff all show ?thesis
    by blast
qed

text \<open>
  On the sample rows: with the maximum 200 the row at 100 is left out and the row at 101 is
  counted.
\<close>

theorem SelectRecentMissValidatorVoteList_window_witness:
  "tables (sample_db_with sample_window_votes)
      (MakePartitionTableName sample_helper IndexName ''testchain'') = Some sample_window_votes \<and>
   sample_window_votes \<noteq> [] \<and>
   200 = Max (height ` set sample_window_votes) \<and>
   SelectRecentMissValidatorVoteList sample_helper no_faults
      (sample_db_with sample_window_votes) ''testchain'' =
     ([\<lparr>moniker = ''alice'', max_height = 200, min_height = 101,
        missed = 1, commited = 1, proposed = 0\<rparr>], None)"
proof -
  have part: "tables (sample_db_with sample_window_votes)
      (MakePartitionTableName sample_helper IndexName ''testchain'') = Some sample_window_votes"
    by (simp add: sample_defs IndexName_def)
  have ne: "sample_window_votes \<noteq> []"
    by (simp add: sample_defs)
  have M: "200 = Max (height ` set sample_window_votes)"
    by (simp add: sample_defs)
  have run: "SelectRecentMissValidatorVoteList sample_helper no_faults
      (sample_db_with sample_window_votes) ''testchain'' =
     ([\<lparr>moniker = ''alice'', max_height = 200, min_height = 101,
        missed = 1, commited = 1, proposed = 0\<rparr>], None)"
    by (simp add: sample_defs select_defs)
  show ?thesis
    using part ne M run
      SelectRecentMissValidatorVoteList_window[where F = no_faults, OF part ne M refl]
    by - (intro conjI, assumption+)
qed

text \<open>
  Claim C4. On a partition without rows the anchor \<^verbatim>\<open>MAX(height)\<close> is \<^verbatim>\<open>NULL\<close> and
  the comparison against it keeps no row: the method returns the empty result, and its error
  is \<^verbatim>\<open>nil\<close> unless the store itself fails to run the query.
\<close>

theorem SelectRecentMissValidatorVoteList_empty_partition:
  assumes "tables db (MakePartitionTableName H IndexName chainID) = Some []"
  shows "SelectRecentMissValidatorVoteList H F db chainID = ([], F SelectRecent)"
  using assms
  by (simp add: SelectRecentMissValidatorVoteList_def exec_select_recent_def sql_int8_minus_def
      join_validator_info_def split: option.splits)

text \<open>
  On the sample store, whose partition is empty.
\<close>

theorem SelectRecentMissValidatorVoteList_empty_partition_witness:
  "tables sample_db (MakePartitionTableName sample_helper IndexName ''testchain'') = Some [] \<and>
   SelectRecentMissValidatorVoteList sample_helper no_faults sample_db ''testchain'' = ([], None)"
proof -
  have part: "tables sample_db (MakePartitionTableName sample_helper IndexName ''testchain'') = Some []"
    by (simp add: sample_defs IndexName_def)
  from part SelectRecentMissValidatorVoteList_empty_partition[where F = no_faults, OF part]
  show ?thesis by (simp add: no_faults_def)
qed

text \<open>
  Claim C9. In every summary the method returns, \<open>missed\<close> counts the rows of the window
  with status 1, \<open>commited\<close> those with status 2 and \<open>proposed\<close> those with status 3.
  The three counters together count the rows with one of these statuses, so a row with
  another status is in none of them; it still lies between the summary's minimum and
  maximum height, which range over all rows of the window.
\<close>

theorem SelectRecentMissValidatorVoteList_status_counters:
  assumes part: "tables db (MakePartitionTableName H IndexName chainID) = Some rows"
    and s: "s \<in> set (fst (SelectRecentMissValidatorVoteList H F db chainID))"
    and W: "W = map snd (filter (\<lambda>r. fst r = moniker s \<and>
                                      Max (height ` set rows) - 100 < height (snd r))
                          (join_validator_info rows (validator_info db)))"
  shows "missed s = int (length (filter (\<lambda>v. status v = 1) W)) \<and>
         commited s = int (length (filter (\<lambda>v. status v = 2) W)) \<and>
         proposed s = int (length (filter (\<lambda>v. status v = 3) W)) \<and>
         missed s + commited s + proposed s =
           int (length (filter (\<lambda>v. status v = 1 \<or> status v = 2 \<or> status v = 3) W)) \<and>
         max_height s = Max (height ` set W) \<and> min_height s = Min (height ` set W) \<and>
         (\<forall>v \<in> set W. min_height s \<le> height v \<and> height v \<le> max_height s)"
proof -
  obtain res where ex: "exec_select_recent F db (MakePartitionTableName H IndexName chainID) = Inr res"
    and sres: "s \<in> set res"
    using s by (auto simp: SelectRecentMissValidatorVoteList_def split: sum.splits)
  from exec_select_recent_Inr[where t = "MakePartitionTableName H IndexName chainID", OF ex part sres]
  have res: "res = group_by_moniker (filter (\<lambda>r. Max (height ` set rows) - 100 < height (snd r))
            (join_validator_info rows (validator_info db)))"
    by blast
  note w = window_summaries(3)[OF res sres W]
  have "length (filter (\<lambda>v. status v = 1 \<or> status v = 2 \<or> status v = 3) W) =
        length (filter (\<lambda>v. status v = 1) W) + length (filter (\<lambda>v. status v = 2) W) +
        length (filter (\<lambda>v. status v = 3) W)"
    by (induction W) auto
  with w have sum: "missed s + commited s + proposed s =
           int (length (filter (\<lambda>v. status v = 1 \<or> status v = 2 \<or> status v = 3) W))"
    by simp
  have "\<forall>v \<in> set W. min_height s \<le> height v \<and> height v \<le> max_height s"
  proof
    fix v assume "v \<in> set W"
    then have "Min (height ` set W) \<le> height v" "height v \<le> Max (height ` set W)"
      by simp_all
    with w show "min_height s \<le> height v \<and> height v \<le> max_height s" by simp
  qed
  with w sum show ?thesis by blast
qed

text \<open>
  On the sample rows: the row with status 7 is in no counter and gives the maximum height.
\<close>

theorem SelectRecentMissValidatorVoteList_status_counters_witness:
  "tables (sample_db_with sample_status_votes)
      (MakePartitionTableName sample_helper IndexName ''testchain'') = Some sample_status_votes \<and>
   SelectRecentMissValidatorVoteList sample_helper no_faults
      (sample_db_with sample_status_votes) ''testchain'' =
     ([\<lparr>moniker = ''alice'', max_height = 12, min_height = 10,
        missed = 1, commited = 0, proposed = 1\<rparr>], None) \<and>
   map snd (filter (\<lambda>r. fst r = ''alice'' \<and>
                        Max (height ` set sample_status_votes) - 100 < height (snd r))
             (join_validator_info sample_status_votes
                (validator_info (sample_db_with sample_status_votes))))
     = sample_status_votes"
proof -
  let ?s = "\<lparr>moniker = ''alice'', max_height = 12, min_height = 10,
        missed = 1, commited = 0, proposed = 1\<rparr>"
  have part: "tables (sample_db_with sample_status_votes)
      (MakePartitionTableName sample_helper IndexName ''testchain'') = Some sample_status_votes"
    by (simp add: sample_defs IndexName_def)
  have run: "SelectRecentMissValidatorVoteList sample_helper no_faults
      (sample_db_with sample_status_votes) ''testchain'' = ([?s], None)"
    by (simp add: sample_defs select_defs)
  then have s: "?s \<in> set (fst (SelectRecentMissValidatorVoteList sample_helper no_faults
      (sample_db_with sample_status_votes) ''testchain''))"
    by simp
  have W: "map snd (filter (\<lambda>r. fst r = ''alice'' \<and>
                        Max (height ` set sample_status_votes) - 100 < height (snd r))
             (join_validator_info sample_status_votes
                (validator_info (sample_db_with sample_status_votes))))
     = sample_status_votes"
    by (simp add: sample_defs join_validator_info_def)
  show ?thesis
    using part run W SelectRecentMissValidatorVoteList_status_counters[OF part s refl]
    by - (intro conjI, assumption+)
qed

subsection \<open>DeleteOldValidatorVoteList\<close>

lemma exec_delete_old_ok:
  assumes "F DeleteOld = None" and "tables db t = Some rows"
  shows "exec_delete_old F db t c =
     Inr (int (length (filter (\<lambda>v. timestamp v < c) rows)),
          db\<lparr>tables := (tables db)(t \<mapsto> filter (\<lambda>v. c \<le> timestamp v) rows)\<rparr>)"
  using assms by (simp add: exec_delete_old_def not_less)

lemma exec_delete_old_nothing:
  assumes "tables db t = Some rows" and "\<forall>v \<in> set rows. c \<le> timestamp v"
  shows "exec_delete_old F db t c = Inr (0, db) \<or> (\<exists>e. exec_delete_old F db t c = Inl e)"
proof (cases "F DeleteOld")
  case (Some e)
  then show ?thesis by (simp add: exec_delete_old_def)
next
  case None
  from assms(2) have none: "filter (\<lambda>v. timestamp v < c) rows = []"
    by (auto simp: filter_empty_conv)
  from assms(2) have all: "filter (\<lambda>v. c \<le> timestamp v) rows = rows"
    by (auto simp: filter_id_conv)
  from assms(1) have "(tables db)(t \<mapsto> rows) = tables db"
    by (rule fun_upd_idem)
  then have "db\<lparr>tables := (tables db)(t \<mapsto> rows)\<rparr> = db"
    by simp
  with none all show ?thesis
    by (simp add: exec_delete_old_ok[where F = F, OF None assms(1)])
qed

lemma DeleteOldValidatorVoteList_nothing:
  assumes "tables db (MakePartitionTableName H IndexName chainID) = Some rows"
    and "\<forall>v \<in> set rows. c \<le> timestamp v"
    and "\<forall>d. ParseRetentionPeriod H rp = Inr d \<longrightarrow> now + d \<le> c"
  shows "fst (fst (DeleteOldValidatorVoteList H F now db chainID rp)) = 0 \<and>
         snd (DeleteOldValidatorVoteList H F now db chainID rp) = db"
proof (cases "ParseRetentionPeriod H rp")
  case (Inl e)
  then show ?thesis by (simp add: DeleteOldValidatorVoteList_def)
next
  case (Inr d)
  with assms(3) have "now + d \<le> c" by simp
  with assms(2) have "\<forall>v \<in> set rows. now + d \<le> timestamp v" by auto
  from exec_delete_old_nothing[where F = F, OF assms(1) this] Inr show ?thesis
    by (auto simp: DeleteOldValidatorVoteList_def)
qed

text \<open>
  Claim C5. When the retention period parses and the delete runs, with
  \<open>cutoff = now + duration\<close>: the partition keeps exactly its rows with
  \<open>cutoff \<le> timestamp\<close>, the returned count is the number of rows with
  \<open>timestamp < cutoff\<close>, which is the number of rows removed, and the other tables are
  untouched. A further call whose cutoff is not later deletes nothing: it returns the
  count 0 and leaves the store as it is.
\<close>

theorem DeleteOldValidatorVoteList_prunes:
  assumes parse: "ParseRetentionPeriod H retentionPeriod = Inr duration"
    and part: "tables db (MakePartitionTableName H IndexName chainID) = Some rows"
    and ok: "F DeleteOld = None"
    and cutoff: "cutoff = now + duration"
  shows "\<exists>n db'. DeleteOldValidatorVoteList H F now db chainID retentionPeriod = ((n, None), db') \<and>
      tables db' (MakePartitionTableName H IndexName chainID) =
        Some (filter (\<lambda>v. cutoff \<le> timestamp v) rows) \<and>
      n = int (length (filter (\<lambda>v. timestamp v < cutoff) rows)) \<and>
      n = int (length rows) - int (length (filter (\<lambda>v. cutoff \<le> timestamp v) rows)) \<and>
      (\<forall>t. t \<noteq> MakePartitionTableName H IndexName chainID \<longrightarrow> tables db' t = tables db t) \<and>
      index_pointer db' = index_pointer db \<and>
      (\<forall>F' now' rp'.
         (\<forall>d'. ParseRetentionPeriod H rp' = Inr d' \<longrightarrow> now' + d' \<le> cutoff) \<longrightarrow>
         fst (fst (DeleteOldValidatorVoteList H F' now' db' chainID rp')) = 0 \<and>
         snd (DeleteOldValidatorVoteList H F' now' db' chainID rp') = db')"
proof -
  let ?t = "MakePartitionTableName H IndexName chainID"
  let ?kept = "filter (\<lambda>v. cutoff \<le> timestamp v) rows"
  define n where "n = int (length (filter (\<lambda>v. timestamp v < cutoff) rows))"
  define db' where "db' = db\<lparr>tables := (tables db)(?t \<mapsto> ?kept)\<rparr>"
  have run: "DeleteOldValidatorVoteList H F now db chainID retentionPeriod = ((n, None), db')"
    using parse cutoff exec_delete_old_ok[where F = F, OF ok part, of cutoff]
    by (simp add: DeleteOldValidatorVoteList_def n_def db'_def)
  have kept: "tables db' ?t = Some ?kept"
    by (simp add: db'_def)
  have "length rows = length (filter (\<lambda>v. timestamp v < cutoff) rows) + length ?kept"
    using sum_length_filter_compl[of "\<lambda>v. timestamp v < cutoff" rows]
    by (simp add: not_less)
  then have count: "n = int (length rows) - int (length ?kept)"
    by (simp add: n_def)
  have others: "\<forall>t. t \<noteq> ?t \<longrightarrow> tables db' t = tables db t"
    by (simp add: db'_def)
  have ptr: "index_pointer db' = index_pointer db"
    by (simp add: db'_def)
  have again: "fst (fst (DeleteOldValidatorVoteList H F' now' db' chainID rp')) = 0 \<and>
         snd (DeleteOldValidatorVoteList H F' now' db' chainID rp') = db'"
    if "\<forall>d'. ParseRetentionPeriod H rp' = Inr d' \<longrightarrow> now' + d' \<le> cutoff" for F' now' rp'
    using kept _ that by (rule DeleteOldValidatorVoteList_nothing) simp
  from run kept count others ptr again show ?thesis
    unfolding n_def[symmetric] by blast
qed

text \<open>
  On the sample rows, with the cutoff 100: the row at 99 goes, the rows at 100 and 101 stay,
  and a second call deletes nothing.
\<close>

theorem DeleteOldValidatorVoteList_prunes_witness:
  "ParseRetentionPeriod sample_helper ''1h'' = Inr (- 3600) \<and>
   tables (sample_db_with sample_aged_votes)
      (MakePartitionTableName sample_helper IndexName ''testchain'') = Some sample_aged_votes \<and>
   no_faults DeleteOld = None \<and> (100::int) = 3700 + (- 3600) \<and>
   fst (DeleteOldValidatorVoteList sample_helper no_faults 3700
          (sample_db_with sample_aged_votes) ''testchain'' ''1h'') = (1, None) \<and>
   tables (snd (DeleteOldValidatorVoteList sample_helper no_faults 3700
          (sample_db_with sample_aged_votes) ''testchain'' ''1h'')) ''voteindexer_testchain''
     = Some [sample_vote 11 1 100, sample_vote 12 2 101] \<and>
   fst (DeleteOldValidatorVoteList sample_helper no_faults 3700
          (snd (DeleteOldValidatorVoteList sample_helper no_faults 3700
                  (sample_db_with sample_aged_votes) ''testchain'' ''1h''))
          ''testchain'' ''1h'') = (0, None)"
proof -
  have parse: "ParseRetentionPeriod sample_helper ''1h'' = Inr (- 3600)"
    by (simp add: sample_helper_def)
  have part: "tables (sample_db_with sample_aged_votes)
      (MakePartitionTableName sample_helper IndexName ''testchain'') = Some sample_aged_votes"
    by (simp add: sample_defs IndexName_def)
  have ok: "no_faults DeleteOld = None"
    by (simp add: no_faults_def)
  have cutoff: "(100::int) = 3700 + (- 3600)"
    by simp
  have run: "DeleteOldValidatorVoteList sample_helper no_faults 3700
          (sample_db_with sample_aged_votes) ''testchain'' ''1h'' =
      ((1, None), sample_db_with [sample_vote 11 1 100, sample_vote 12 2 101])"
    by (simp add: sample_defs delete_defs)
  have again: "DeleteOldValidatorVoteList sample_helper no_faults 3700
          (sample_db_with [sample_vote 11 1 100, sample_vote 12 2 101]) ''testchain'' ''1h'' =
      ((0, None), sample_db_with [sample_vote 11 1 100, sample_vote 12 2 101])"
    by (simp add: sample_defs delete_defs)
  have r1: "fst (DeleteOldValidatorVoteList sample_helper no_faults 3700
          (sample_db_with sample_aged_votes) ''testchain'' ''1h'') = (1, None)"
    by (simp only: run fst_conv)
  have r2: "tables (snd (DeleteOldValidatorVoteList sample_helper no_faults 3700
          (sample_db_with sample_aged_votes) ''testchain'' ''1h'')) ''voteindexer_testchain''
     = Some [sample_vote 11 1 100, sample_vote 12 2 101]"
  proof -
    have "tables (sample_db_with [sample_vote 11 1 100, sample_vote 12 2 101])
        ''voteindexer_testchain'' = Some [sample_vote 11 1 100, sample_vote 12 2 101]"
      by (simp add: sample_db_with_def)
    then show ?thesis
      by (simp only: run snd_conv)
  qed
  have r3: "fst (DeleteOldValidatorVoteList sample_helper no_faults 3700
          (snd (DeleteOldValidatorVoteList sample_helper no_faults 3700
                  (sample_db_with sample_aged_votes) ''testchain'' ''1h''))
          ''testchain'' ''1h'') = (0, None)"
    by (simp only: run again fst_conv snd_conv)
  show ?thesis
    using parse part ok cutoff r1 r2 r3
      DeleteOldValidatorVoteList_prunes[where F = no_faults, OF parse part ok cutoff]
    by - (intro conjI, assumption+)
qed

text \<open>
  Claim C6. When the parser rejects the retention period, the method returns the parser's
  error and the count 0, sends no request (the result does not depend on what the store
  would do) and leaves the store unchanged.
\<close>

theorem DeleteOldValidatorVoteList_malformed:
  assumes "ParseRetentionPeriod H retentionPeriod = Inl e"
  shows "DeleteOldValidatorVoteList H F now db chainID retentionPeriod = ((0, Some e), db)"
  using assms by (simp add: DeleteOldValidatorVoteList_def)

text \<open>
  On the sample store, with a period the sample parser rejects.
\<close>

theorem DeleteOldValidatorVoteList_malformed_witness:
  "ParseRetentionPeriod sample_helper ''soon'' = Inl (Err ''invalid retention period'') \<and>
   DeleteOldValidatorVoteList sample_helper no_faults 3700
      (sample_db_with sample_aged_votes) ''testchain'' ''soon'' =
     ((0, Some (Err ''invalid retention period'')), sample_db_with sample_aged_votes)"
proof -
  have parse: "ParseRetentionPeriod sample_helper ''soon'' = Inl (Err ''invalid retention period'')"
    by (simp add: sample_helper_def)
  from parse DeleteOldValidatorVoteList_malformed[OF parse, where F = no_faults and now = 3700
      and db = "sample_db_with sample_aged_votes" and chainID = "''testchain''"]
  show ?thesis by simp
qed

end
